theory Spec2Isabelle
  imports Complex_Main
begin

section \<open>Request gatherer: the admission primitive of class Queries\<close>

text \<open>
  Class \<open>Queries\<close> of \<open>github-stats.ts\<close> bounds the number of requests in flight with a
  counter \<open>activeRequests\<close> and a queue \<open>requestQueue\<close> of resume callbacks. A callback is
  identified here with the caller whose \<open>acquireSemaphore\<close> promise it resolves. The fields
  \<open>username\<close>, \<open>accessToken\<close>, \<open>client\<close> and the unused \<open>semaphore\<close> play no part in
  admission and are left out.
\<close>

type_synonym caller = nat

record Queries =
  maxConnections :: int
  activeRequests :: int
  requestQueue :: "caller list"

text \<open>The constructor; \<open>maxConnections\<close> defaults to 10 in the source.\<close>

definition new_Queries :: "int \<Rightarrow> Queries" where
  "new_Queries maxConn =
     \<lparr>maxConnections = maxConn, activeRequests = 0, requestQueue = []\<rparr>"

text \<open>
  \<open>acquireSemaphore\<close>: the promise of caller \<open>c\<close> is resolved at once when a slot is free,
  otherwise its callback is pushed on the queue. The first component of the result is the
  caller whose promise was resolved by this call, if any.
\<close>

definition acquireSemaphore :: "caller \<Rightarrow> Queries \<Rightarrow> caller option \<times> Queries" where
  "acquireSemaphore c q =
     (if activeRequests q < maxConnections q
      then (Some c, q\<lparr>activeRequests := activeRequests q + 1\<rparr>)
      else (None, q\<lparr>requestQueue := requestQueue q @ [c]\<rparr>))"

text \<open>
  \<open>releaseSemaphore\<close>: decrement, then shift the queue and run the callback found there
  (which increments the counter again and resolves that caller's promise).
\<close>

definition releaseSemaphore :: "Queries \<Rightarrow> caller option \<times> Queries" where
  "releaseSemaphore q =
     (let q1 = q\<lparr>activeRequests := activeRequests q - 1\<rparr>
      in case requestQueue q1 of
           [] \<Rightarrow> (None, q1)
         | next # rest \<Rightarrow>
             (Some next, q1\<lparr>requestQueue := rest, activeRequests := activeRequests q1 + 1\<rparr>))"

text \<open>
  Concurrent use: the event loop runs the semaphore calls of all callers one after the
  other, in some interleaving. \<open>holding\<close> is the list of callers whose acquire promise has
  been resolved and who have not called release since (the requests really in flight);
  \<open>admissions\<close> is the order in which promises were resolved.
\<close>

datatype sem_call = Acq caller | Rel caller

record gatherer =
  sem :: Queries
  holding :: "caller list"
  admissions :: "caller list"

definition admit :: "caller option \<Rightarrow> gatherer \<Rightarrow> gatherer" where
  "admit r g = (case r of None \<Rightarrow> g
     | Some c \<Rightarrow> g\<lparr>holding := holding g @ [c], admissions := admissions g @ [c]\<rparr>)"

fun sem_step :: "gatherer \<Rightarrow> sem_call \<Rightarrow> gatherer" where
  "sem_step g (Acq c) =
     (let r = acquireSemaphore c (sem g) in admit (fst r) (g\<lparr>sem := snd r\<rparr>))"
| "sem_step g (Rel c) =
     (let r = releaseSemaphore (sem g)
      in admit (fst r) (g\<lparr>sem := snd r, holding := remove1 c (holding g)\<rparr>))"

definition new_gatherer :: "int \<Rightarrow> gatherer" where
  "new_gatherer maxConn = \<lparr>sem = new_Queries maxConn, holding = [], admissions = []\<rparr>"

definition run_calls :: "gatherer \<Rightarrow> sem_call list \<Rightarrow> gatherer" where
  "run_calls g cs = foldl sem_step g cs"

section \<open>The remote API as seen by the program\<close>

text \<open>
  JavaScript numbers. Counts and byte sizes are integers; a quotient is kept exact (the
  rounding of the floating-point division is not modelled), and the values a division by
  zero produces are kept apart.
\<close>

datatype jsnum = Num rat | NaN | Infinity | NegInfinity

definition js_div :: "int \<Rightarrow> int \<Rightarrow> jsnum" where
  "js_div a b =
     (if b \<noteq> 0 then Num (of_int a / of_int b)
      else if a = 0 then NaN
      else if 0 < a then Infinity else NegInfinity)"

definition js_times :: "rat \<Rightarrow> jsnum \<Rightarrow> jsnum" where
  "js_times c x = (case x of
       Num r \<Rightarrow> Num (c * r)
     | NaN \<Rightarrow> NaN
     | Infinity \<Rightarrow> (if 0 < c then Infinity else if c < 0 then NegInfinity else NaN)
     | NegInfinity \<Rightarrow> (if 0 < c then NegInfinity else if c < 0 then Infinity else NaN))"

text \<open>\<open>x || 0\<close> on a number that may be missing.\<close>

definition or0 :: "int option \<Rightarrow> int" where
  "or0 x = (case x of None \<Rightarrow> 0 | Some n \<Rightarrow> n)"

text \<open>\<open>x || y\<close> on strings: a missing, null or empty string is falsy.\<close>

definition truthy :: "string option \<Rightarrow> bool" where
  "truthy x = (case x of None \<Rightarrow> False | Some s \<Rightarrow> s \<noteq> [])"

definition or_else :: "string option \<Rightarrow> string option \<Rightarrow> string option" where
  "or_else x y = (if truthy x then x else y)"

text \<open>\<open>String.prototype.toLowerCase\<close>, on the ASCII letters.\<close>

definition lower_char :: "char \<Rightarrow> char" where
  "lower_char c =
     (case map_of (zip ''ABCDEFGHIJKLMNOPQRSTUVWXYZ'' ''abcdefghijklmnopqrstuvwxyz'') c of
        None \<Rightarrow> c
      | Some l \<Rightarrow> l)"

definition toLowerCase :: "string \<Rightarrow> string" where
  "toLowerCase s = map lower_char s"

subsection \<open>The GraphQL types\<close>

record LanguageNode =
  node_name :: "string option"
  node_color :: "string option"

record LanguageEdge =
  edge_size :: "int option"
  edge_node :: "LanguageNode option"

text \<open>
  \<open>repo_stargazers\<close> is \<open>stargazers?.totalCount\<close>, \<open>repo_languages\<close> is
  \<open>languages?.edges\<close>.
\<close>

record Repository =
  nameWithOwner :: string
  repo_stargazers :: "int option"
  forkCount :: "int option"
  repo_languages :: "LanguageEdge list option"

record PageInfo =
  hasNextPage :: bool
  endCursor :: "string option"

text \<open>An entry \<open>None\<close> of \<open>nodes\<close> is a null node.\<close>

record RepositoryPage =
  pageInfo :: "PageInfo option"
  nodes :: "Repository option list option"

text \<open>\<open>totalContributions\<close> is \<open>contributionCalendar?.totalContributions\<close>.\<close>

record ContributionsCollection =
  contributionYears :: "int list option"
  totalContributions :: "int option"

text \<open>
  The \<open>viewer\<close> object. \<open>viewer_others\<close> holds the remaining keys (\<open>[key: string]:
  unknown\<close>), which are the per-year aliases of the contributions query.
\<close>

record Viewer =
  viewer_login :: "string option"
  viewer_name :: "string option"
  repositories :: "RepositoryPage option"
  repositoriesContributedTo :: "RepositoryPage option"
  contributionsCollection :: "ContributionsCollection option"
  viewer_others :: "(string \<times> ContributionsCollection) list"

text \<open>
  What the program reads of a \<open>GraphQLResponse\<close> is \<open>data?.viewer\<close>; \<open>None\<close> is a
  response without it, such as the empty object \<open>{}\<close>.
\<close>

type_synonym GraphQLResponse = "Viewer option"

subsection \<open>The query documents\<close>

text \<open>
  A query document is kept by what varies in its text: the \<open>after:\<close> argument of the
  \<open>repositories\<close> connection and that of the \<open>repositoriesContributedTo\<close> connection,
  or the years asked for.
\<close>

record overview_query =
  repositories_after :: "string option"
  repositoriesContributedTo_after :: "string option"

datatype gql_query = Overview overview_query | ContribYears | AllContribs "int list"

definition reposOverview :: "string option \<Rightarrow> string option \<Rightarrow> gql_query" where
  "reposOverview contribCursor ownedCursor =
     Overview \<lparr>repositories_after = ownedCursor,
               repositoriesContributedTo_after = contribCursor\<rparr>"



subsection \<open>The REST types\<close>

text \<open>
  The \<open>retry-after\<close> header of a reply. \<open>parseInt\<close> is a builtin, so a header that is
  present and non-empty carries the value \<open>parseInt(header, 10)\<close> (\<open>None\<close> for NaN).
\<close>

datatype retry_after = NoRetryAfter | RetryAfter "int option"

record week =
  week_a :: "int option"
  week_d :: "int option"

text \<open>
  \<open>RESTResponse\<close>. \<open>rest_author\<close> is \<open>None\<close> when \<open>author\<close> is missing, null or not an
  object, and \<open>Some l\<close> for an author object whose \<open>login\<close> is \<open>l\<close>. An entry of
  \<open>rest_views\<close> is the \<open>count\<close> of a view.
\<close>

record RESTResponse =
  rest_author :: "string option option"
  rest_weeks :: "week list option"
  rest_views :: "int option list option"

text \<open>The payload is one object or an array; an array entry \<open>None\<close> is a null entry.\<close>

datatype payload = Single RESTResponse | Many "RESTResponse option list"

definition empty_RESTResponse :: RESTResponse where
  "empty_RESTResponse = \<lparr>rest_author = None, rest_weeks = None, rest_views = None\<rparr>"

definition empty_payload :: payload where
  "empty_payload = Single empty_RESTResponse"

subsection \<open>Replies, events and the world\<close>

text \<open>
  The world outside the program is a script of replies for each endpoint: each network call
  consumes the next reply, and a call made after the script has run out fails like a
  transport error. What the program does is recorded as a trace of events, in the order of
  execution.

  A reply to an HTTP GET: \<open>Response status header data\<close> is a resolved promise,
  \<open>Rejected r\<close> a rejected one, with \<open>r\<close> the status and header of \<open>error.response\<close> when
  the error is an axios error that carries a response. A reply to a GraphQL POST either
  resolves with a body or rejects.
\<close>

datatype 'a http_result =
    Response nat retry_after "'a option"
  | Rejected "(nat \<times> retry_after) option"

datatype gql_result = GqlOk GraphQLResponse | GqlFail

datatype event =
    Acquire
  | Release
  | Get string
  | FallbackGet string
  | Post gql_query
  | FallbackPost gql_query
  | Log nat jsnum
  | Sleep jsnum
  | ErrorLog
  | Warn string

record world =
  gql_script :: "gql_result list"
  rest_script :: "payload http_result list"
  trace :: "event list"

definition emit :: "event list \<Rightarrow> world \<Rightarrow> world" where
  "emit es w = w\<lparr>trace := trace w @ es\<rparr>"

section \<open>Request gatherer: query\<close>

definition next_gql :: "world \<Rightarrow> gql_result \<times> world" where
  "next_gql w = (case gql_script w of
       [] \<Rightarrow> (GqlFail, w)
     | r # rs \<Rightarrow> (r, w\<lparr>gql_script := rs\<rparr>))"

text \<open>
  \<open>query\<close>: one slotted POST; when it fails, one direct POST; when that fails too, the
  empty object. The slot is released in the \<open>finally\<close> block.
\<close>

definition query :: "gql_query \<Rightarrow> world \<Rightarrow> GraphQLResponse \<times> world" where
  "query q w =
     (let r = next_gql (emit [Acquire, Post q] w)
      in case fst r of
           GqlOk v \<Rightarrow> (v, emit [Release] (snd r))
         | GqlFail \<Rightarrow>
             (let f = next_gql (emit [ErrorLog, FallbackPost q] (snd r))
              in case fst f of
                   GqlOk v \<Rightarrow> (v, emit [Release] (snd f))
                 | GqlFail \<Rightarrow> (None, emit [ErrorLog, Release] (snd f))))"

section \<open>Request gatherer: queryRest\<close>

definition maxAttempts :: nat where
  "maxAttempts = 60"

definition next_reply :: "world \<Rightarrow> payload http_result \<times> world" where
  "next_reply w = (case rest_script w of
       [] \<Rightarrow> (Rejected None, w)
     | r # rs \<Rightarrow> (r, w\<lparr>rest_script := rs\<rparr>))"

text \<open>
  The delay before the next attempt: the server's value in milliseconds when the header is
  there, else \<open>Math.min(2000 * Math.pow(1.5, attempt), 10000)\<close>.
\<close>

definition retry_delay :: "retry_after \<Rightarrow> nat \<Rightarrow> jsnum" where
  "retry_delay h attempt = (case h of
       RetryAfter None \<Rightarrow> NaN
     | RetryAfter (Some n) \<Rightarrow> Num (of_int n * 1000)
     | NoRetryAfter \<Rightarrow> Num (min (2000 * (3 / 2) ^ attempt) 10000))"

text \<open>The progress message (first five attempts and every tenth) and the wait.\<close>

definition log_and_wait :: "retry_after \<Rightarrow> nat \<Rightarrow> event list" where
  "log_and_wait h attempt =
     (if attempt < 5 \<or> attempt mod 10 = 0
      then [Log (attempt + 1) (retry_delay h attempt)] else [])
     @ [Sleep (retry_delay h attempt)]"

text \<open>\<open>response.data || {}\<close>.\<close>

definition or_empty :: "payload option \<Rightarrow> payload" where
  "or_empty d = (case d of None \<Rightarrow> empty_payload | Some p \<Rightarrow> p)"

datatype 'a outcome = Continue | Return 'a

text \<open>
  The fallback request of the \<open>catch\<close> block, up to the \<open>finally\<close> block (not included).
\<close>

definition rest_fallback :: "string \<Rightarrow> nat \<Rightarrow> world \<Rightarrow> payload outcome \<times> world" where
  "rest_fallback path attempt w =
     (let r = next_reply (emit [ErrorLog, FallbackGet path] w)
      in case fst r of
           Response st h d \<Rightarrow>
             if st = 202 then (Continue, emit (log_and_wait h attempt) (snd r))
             else if st = 200 then (Return (or_empty d), snd r)
             else (Continue, snd r)
         | Rejected e \<Rightarrow> (Continue, snd r))"

text \<open>
  One iteration of the \<open>for\<close> loop of \<open>queryRest\<close>. The \<open>finally\<close> block runs on every way
  out of the \<open>try\<close> statement, also on \<open>continue\<close> and \<open>return\<close>.
\<close>

definition rest_attempt :: "string \<Rightarrow> nat \<Rightarrow> world \<Rightarrow> payload outcome \<times> world" where
  "rest_attempt path attempt w =
     (let r = next_reply (emit [Acquire, Get path] w)
      in case fst r of
           Response st h d \<Rightarrow>
             if st = 202
             then (Continue, emit (log_and_wait h attempt @ [Release] @ [Release]) (snd r))
             else (Return (or_empty d), emit [Release] (snd r))
         | Rejected e \<Rightarrow>
             (let w1 = emit [Release] (snd r)
              in case e of
                   Some (st, h) \<Rightarrow>
                     if st = 202
                     then (Continue, emit (log_and_wait h attempt @ [Release]) w1)
                     else (let f = rest_fallback path attempt w1
                           in (fst f, emit [Release] (snd f)))
                 | None \<Rightarrow>
                     (let f = rest_fallback path attempt w1
                      in (fst f, emit [Release] (snd f)))))"

function queryRest_loop :: "string \<Rightarrow> nat \<Rightarrow> world \<Rightarrow> payload \<times> world" where
  "queryRest_loop path attempt w =
     (if attempt < maxAttempts
      then (let r = rest_attempt path attempt w
            in case fst r of
                 Return p \<Rightarrow> (p, snd r)
               | Continue \<Rightarrow> queryRest_loop path (Suc attempt) (snd r))
      else (empty_payload, emit [Warn path] w))"
  by pat_completeness auto
termination
  by (relation "measure (\<lambda>(path, attempt, w). maxAttempts - attempt)") auto

declare queryRest_loop.simps [simp del]

definition queryRest :: "string \<Rightarrow> world \<Rightarrow> payload \<times> world" where
  "queryRest path w = queryRest_loop path 0 w"

text \<open>Reading a trace: the semaphore calls of a caller, the attempts and the requests.\<close>

definition sem_calls :: "caller \<Rightarrow> event list \<Rightarrow> sem_call list" where
  "sem_calls c tr =
     concat (map (\<lambda>e. case e of Acquire \<Rightarrow> [Acq c] | Release \<Rightarrow> [Rel c] | _ \<Rightarrow> []) tr)"

definition attempts :: "event list \<Rightarrow> nat" where
  "attempts tr = length (filter (\<lambda>e. e = Acquire) tr)"

definition is_request :: "event \<Rightarrow> bool" where
  "is_request e = (case e of Get p \<Rightarrow> True | FallbackGet p \<Rightarrow> True | _ \<Rightarrow> False)"

definition requests :: "event list \<Rightarrow> nat" where
  "requests tr = length (filter is_request tr)"

text \<open>A reply that says "still computing": status 202, with its header and body.\<close>

definition still_computing :: "retry_after \<times> payload option \<Rightarrow> payload http_result" where
  "still_computing x = Response 202 (fst x) (snd x)"

section \<open>Statistics aggregator: class Stats\<close>

text \<open>
  A value of \<open>_languages\<close>: an object keyed by language name, kept as an association list
  in insertion order. \<open>lang_prop\<close> (the field \<open>prop\<close>) is absent until the proportions are computed.
\<close>

record LanguageData =
  lang_size :: int
  occurrences :: int
  lang_color :: "string option"
  lang_prop :: "jsnum option"

type_synonym languages = "(string \<times> LanguageData) list"

text \<open>
  The fields of \<open>Stats\<close>. The cached fields \<open>_name\<close>, \<open>_stargazers\<close>, ... are
  \<open>cached_name\<close>, \<open>cached_stargazers\<close>, ...; \<open>None\<close> is null. \<open>_repos\<close> is a JavaScript
  \<open>Set\<close>, which iterates in insertion order, so it is a list. The gatherer owned by the
  instance is created with the default capacity, and its calls are recorded in the trace.
\<close>

record Stats =
  username :: string
  ignoreForkedRepos :: bool
  excludeRepos :: "string set"
  excludeLangs :: "string set"
  cached_name :: "string option"
  cached_stargazers :: "int option"
  cached_forks :: "int option"
  cached_totalContributions :: "int option"
  cached_languages :: "languages option"
  cached_repos :: "string list option"
  cached_linesChanged :: "(int \<times> int) option"
  cached_views :: "int option"

text \<open>The constructor; a missing exclusion set is the empty set.\<close>

definition new_Stats :: "string \<Rightarrow> string set option \<Rightarrow> string set option \<Rightarrow> bool \<Rightarrow> Stats" where
  "new_Stats user exRepos exLangs ignoreForked =
     \<lparr>username = user, ignoreForkedRepos = ignoreForked,
      excludeRepos = (case exRepos of None \<Rightarrow> {} | Some x \<Rightarrow> x),
      excludeLangs = (case exLangs of None \<Rightarrow> {} | Some x \<Rightarrow> x),
      cached_name = None, cached_stargazers = None, cached_forks = None,
      cached_totalContributions = None, cached_languages = None, cached_repos = None,
      cached_linesChanged = None, cached_views = None\<rparr>"

subsection \<open>getStats\<close>

text \<open>
  \<open>getStats\<close> assigns \<open>_stargazers\<close>, \<open>_forks\<close>, \<open>_languages\<close> and \<open>_repos\<close> before its
  loop, so they are not null during the pass; \<open>_name\<close> is assigned in the loop. The pass
  works on a record of these five fields, stored back into the instance when it ends.
\<close>

record tally =
  t_name :: "string option"
  t_stargazers :: int
  t_forks :: int
  t_languages :: languages
  t_repos :: "string list"

text \<open>\<open>lang.node?.name || 'Other'\<close>\<close>

definition langName :: "LanguageEdge \<Rightarrow> string" where
  "langName lang = (case edge_node lang of
       None \<Rightarrow> ''Other''
     | Some n \<Rightarrow> (case node_name n of
           None \<Rightarrow> ''Other''
         | Some s \<Rightarrow> if s \<noteq> [] then s else ''Other''))"

text \<open>\<open>lang.node?.color || null\<close>\<close>

definition langColor :: "LanguageEdge \<Rightarrow> string option" where
  "langColor lang = (case edge_node lang of
       None \<Rightarrow> None
     | Some n \<Rightarrow> or_else (node_color n) None)"

text \<open>The body of the loop over the language edges of a repository.\<close>

definition add_language :: "string set \<Rightarrow> languages \<Rightarrow> LanguageEdge \<Rightarrow> languages" where
  "add_language excludeLangsLower langs lang =
     (if toLowerCase (langName lang) \<in> excludeLangsLower then langs
      else if langName lang \<in> fst ` set langs
      then map (\<lambda>kv. if fst kv = langName lang
                       then (fst kv, (snd kv)\<lparr>lang_size := lang_size (snd kv) + or0 (edge_size lang),
                                               occurrences := occurrences (snd kv) + 1\<rparr>)
                       else kv) langs
      else langs @ [(langName lang,
                     \<lparr>lang_size = or0 (edge_size lang), occurrences = 1,
                      lang_color = langColor lang, lang_prop = None\<rparr>)])"

text \<open>The body of the loop over the repositories of a page.\<close>

definition add_repo :: "string set \<Rightarrow> string set \<Rightarrow> tally \<Rightarrow> Repository option \<Rightarrow> tally" where
  "add_repo excluded excludeLangsLower t r = (case r of
       None \<Rightarrow> t
     | Some repo \<Rightarrow>
         if nameWithOwner repo \<in> set (t_repos t) \<or> nameWithOwner repo \<in> excluded then t
         else t\<lparr>t_repos := t_repos t @ [nameWithOwner repo],
                t_stargazers := t_stargazers t + or0 (repo_stargazers repo),
                t_forks := t_forks t + or0 (forkCount repo),
                t_languages := foldl (add_language excludeLangsLower) (t_languages t)
                                 (case repo_languages repo of None \<Rightarrow> [] | Some es \<Rightarrow> es)\<rparr>)"

text \<open>\<open>rawResults.data?.viewer?.name || rawResults.data?.viewer?.login || 'No Name'\<close>\<close>

definition resolve_name :: "GraphQLResponse \<Rightarrow> string" where
  "resolve_name raw = (case raw of
       None \<Rightarrow> ''No Name''
     | Some v \<Rightarrow> (case or_else (viewer_name v) (or_else (viewer_login v) None) of
           None \<Rightarrow> ''No Name''
         | Some s \<Rightarrow> s))"

definition ownedRepos :: "GraphQLResponse \<Rightarrow> RepositoryPage option" where
  "ownedRepos raw = (case raw of None \<Rightarrow> None | Some v \<Rightarrow> repositories v)"

definition contribRepos :: "GraphQLResponse \<Rightarrow> RepositoryPage option" where
  "contribRepos raw = (case raw of None \<Rightarrow> None | Some v \<Rightarrow> repositoriesContributedTo v)"

text \<open>\<open>page?.nodes\<close>, \<open>page?.pageInfo?.hasNextPage || false\<close>, \<open>page?.pageInfo?.endCursor\<close>\<close>

definition page_nodes :: "RepositoryPage option \<Rightarrow> Repository option list option" where
  "page_nodes p = (case p of None \<Rightarrow> None | Some pg \<Rightarrow> nodes pg)"

definition page_hasNext :: "RepositoryPage option \<Rightarrow> bool" where
  "page_hasNext p = (case p of None \<Rightarrow> False
     | Some pg \<Rightarrow> (case pageInfo pg of None \<Rightarrow> False | Some i \<Rightarrow> hasNextPage i))"

definition page_endCursor :: "RepositoryPage option \<Rightarrow> string option" where
  "page_endCursor p = (case p of None \<Rightarrow> None
     | Some pg \<Rightarrow> (case pageInfo pg of None \<Rightarrow> None | Some i \<Rightarrow> endCursor i))"

text \<open>
  The repositories of one response: the owned nodes, followed by the contributed-to nodes
  unless forked repositories are ignored.
\<close>

definition page_repos :: "bool \<Rightarrow> GraphQLResponse \<Rightarrow> Repository option list" where
  "page_repos ignoreForked raw =
     (let repos = (case page_nodes (ownedRepos raw) of None \<Rightarrow> [] | Some ns \<Rightarrow> ns)
      in case page_nodes (contribRepos raw) of
           None \<Rightarrow> repos
         | Some cs \<Rightarrow> if \<not> ignoreForked then repos @ cs else repos)"

definition hasMorePages :: "GraphQLResponse \<Rightarrow> bool" where
  "hasMorePages raw = (page_hasNext (ownedRepos raw) \<or> page_hasNext (contribRepos raw))"

text \<open>What one response does to the tally.\<close>

definition add_page :: "Stats \<Rightarrow> string set \<Rightarrow> tally \<Rightarrow> GraphQLResponse \<Rightarrow> tally" where
  "add_page s excludeLangsLower t raw =
     foldl (add_repo (excludeRepos s) excludeLangsLower)
       (t\<lparr>t_name := Some (resolve_name raw)\<rparr>)
       (page_repos (ignoreForkedRepos s) raw)"

text \<open>
  The \<open>while (hasMorePages)\<close> loop. Each round posts the overview query built from the two
  cursors, adds the page, and goes on while either source reports a next page; the cursors
  are replaced only when the loop goes on.
\<close>

function getStats_loop ::
  "Stats \<Rightarrow> string set \<Rightarrow> tally \<Rightarrow> string option \<Rightarrow> string option \<Rightarrow> world \<Rightarrow> tally \<times> world"
where
  "getStats_loop s excludeLangsLower t nextOwned nextContrib w =
     (let r = query (reposOverview nextOwned nextContrib) w
      in if hasMorePages (fst r)
         then getStats_loop s excludeLangsLower (add_page s excludeLangsLower t (fst r))
                (or_else (page_endCursor (ownedRepos (fst r))) nextOwned)
                (or_else (page_endCursor (contribRepos (fst r))) nextContrib)
                (snd r)
         else (add_page s excludeLangsLower t (fst r), snd r))"
  by pat_completeness auto
termination
proof (relation "measure (\<lambda>(s, e, t, no, nc, w). length (gql_script w))", goal_cases)
  case 1
  show ?case by simp
next
  case (2 s e t no nc w r)
  then have "fst (query (reposOverview no nc) w) \<noteq> None"
    by (auto simp: hasMorePages_def ownedRepos_def contribRepos_def page_hasNext_def
          split: option.splits)
  then have "length (gql_script (snd (query (reposOverview no nc) w))) < length (gql_script w)"
    by (auto simp: query_def next_gql_def emit_def Let_def split: list.splits gql_result.splits)
  with 2 show ?case
    by simp
qed

declare getStats_loop.simps [simp del]

text \<open>The proportions: \<open>v.prop = 100 * ((v.size || 0) / langsTotal)\<close>.\<close>

definition langsTotal :: "languages \<Rightarrow> int" where
  "langsTotal langs = sum_list (map (\<lambda>kv. lang_size (snd kv)) langs)"

definition set_props :: "languages \<Rightarrow> languages" where
  "set_props langs =
     map (\<lambda>kv. (fst kv,
            (snd kv)\<lparr>lang_prop := Some (js_times 100 (js_div (lang_size (snd kv)) (langsTotal langs)))\<rparr>))
       langs"

definition getStats :: "Stats \<Rightarrow> world \<Rightarrow> Stats \<times> world" where
  "getStats s w =
     (let r = getStats_loop s (toLowerCase ` excludeLangs s)
                \<lparr>t_name = cached_name s, t_stargazers = 0, t_forks = 0,
                 t_languages = [], t_repos = []\<rparr>
                None None w
      in (s\<lparr>cached_name := t_name (fst r),
            cached_stargazers := Some (t_stargazers (fst r)),
            cached_forks := Some (t_forks (fst r)),
            cached_languages := Some (set_props (t_languages (fst r))),
            cached_repos := Some (t_repos (fst r))\<rparr>,
          snd r))"

subsection \<open>The accessors\<close>

text \<open>
  An accessor returns its value or raises: \<open>NullAfterGetStats\<close> is the \<open>Error\<close> thrown
  when a field is still null after \<open>getStats\<close>, \<open>TypeError\<close> the error of reading a
  property of \<open>undefined\<close> or \<open>null\<close>.
\<close>

datatype error = NullAfterGetStats string | TypeError



















subsection \<open>Sequences of accessor calls\<close>


datatype result =
    RName string
  | RNumber int
  | RLanguages languages
  | RProportional "(string \<times> jsnum) list"
  | RRepos "string list"
  | RLines "int \<times> int"

definition returning ::
  "('a \<Rightarrow> result) \<Rightarrow> (error + 'a) \<times> Stats \<times> world \<Rightarrow> (error + result) \<times> Stats \<times> world" where
  "returning f x = (map_sum id f (fst x), snd x)"




section \<open>Notions used to state the properties\<close>

text \<open>
  The invariant of the counter and the queue: the counter is at most the capacity, and
  callers wait only while the counter is at the capacity.
\<close>

definition sem_inv :: "Queries \<Rightarrow> bool" where
  "sem_inv q = (activeRequests q \<le> maxConnections q \<and>
     (requestQueue q = [] \<or> activeRequests q = maxConnections q))"

text \<open>The query documents posted, in order, read off a trace.\<close>

definition posted :: "event list \<Rightarrow> gql_query list" where
  "posted tr =
     concat (map (\<lambda>e. case e of Post q \<Rightarrow> [q] | FallbackPost q \<Rightarrow> [q] | _ \<Rightarrow> []) tr)"

text \<open>A viewer object with no key set, to build responses from.\<close>

definition empty_Viewer :: Viewer where
  "empty_Viewer = \<lparr>viewer_login = None, viewer_name = None, repositories = None,
     repositoriesContributedTo = None, contributionsCollection = None, viewer_others = []\<rparr>"




text \<open>
  The repositories that count, by the words of the specification: going through the
  repositories in order, a repository counts when its name is not excluded and has not
  counted before. \<open>repo_edges\<close> is \<open>repo.languages?.edges || []\<close>.
\<close>

definition repo_edges :: "Repository \<Rightarrow> LanguageEdge list" where
  "repo_edges repo = (case repo_languages repo of None \<Rightarrow> [] | Some es \<Rightarrow> es)"

fun counted :: "string set \<Rightarrow> Repository option list \<Rightarrow> Repository list" where
  "counted seen [] = []"
| "counted seen (None # rs) = counted seen rs"
| "counted seen (Some r # rs) =
     (if nameWithOwner r \<in> seen then counted seen rs
      else r # counted (insert (nameWithOwner r) seen) rs)"

text \<open>Two pages of repositories, as an example.\<close>

definition TS_edge :: "int \<Rightarrow> LanguageEdge" where
  "TS_edge n = \<lparr>edge_size = Some n,
      edge_node = Some \<lparr>node_name = Some ''TS'', node_color = Some ''#3178c6''\<rparr>\<rparr>"

definition JS_edge :: "int \<Rightarrow> LanguageEdge" where
  "JS_edge n = \<lparr>edge_size = Some n,
      edge_node = Some \<lparr>node_name = Some ''JS'', node_color = None\<rparr>\<rparr>"

definition repo_a :: Repository where
  "repo_a = \<lparr>nameWithOwner = ''u/a'', repo_stargazers = Some 5, forkCount = Some 1,
      repo_languages = Some [TS_edge 100]\<rparr>"

definition repo_b :: Repository where
  "repo_b = \<lparr>nameWithOwner = ''u/b'', repo_stargazers = Some 3, forkCount = Some 0,
      repo_languages = Some [TS_edge 50, JS_edge 50]\<rparr>"

definition repo_x :: Repository where
  "repo_x = \<lparr>nameWithOwner = ''u/x'', repo_stargazers = Some 100, forkCount = Some 100,
      repo_languages = Some [JS_edge 1000]\<rparr>"

definition page_one :: GraphQLResponse where
  "page_one = Some (empty_Viewer\<lparr>viewer_login := Some ''u'',
      repositories := Some \<lparr>pageInfo = Some \<lparr>hasNextPage = True, endCursor = Some ''c1''\<rparr>,
                            nodes = Some [Some repo_a, Some repo_x]\<rparr>\<rparr>)"

definition page_two :: GraphQLResponse where
  "page_two = Some (empty_Viewer\<lparr>viewer_login := Some ''u'',
      repositories := Some \<lparr>pageInfo = Some \<lparr>hasNextPage = False, endCursor = None\<rparr>,
                            nodes = Some [Some repo_b, None, Some repo_a]\<rparr>,
      repositoriesContributedTo :=
        Some \<lparr>pageInfo = None, nodes = Some [Some repo_x, Some repo_b]\<rparr>\<rparr>)"




definition keeps :: "'a option \<Rightarrow> 'a option \<Rightarrow> bool" where
  "keeps x y = (x = None \<or> y = x)"

definition kept :: "Stats \<Rightarrow> Stats \<Rightarrow> bool" where
  "kept s s' =
     (keeps (cached_name s) (cached_name s') \<and>
      keeps (cached_stargazers s) (cached_stargazers s') \<and>
      keeps (cached_forks s) (cached_forks s') \<and>
      keeps (cached_totalContributions s) (cached_totalContributions s') \<and>
      keeps (cached_languages s) (cached_languages s') \<and>
      keeps (cached_repos s) (cached_repos s') \<and>
      keeps (cached_linesChanged s) (cached_linesChanged s') \<and>
      keeps (cached_views s) (cached_views s'))"

section \<open>Properties of the admission primitive\<close>

lemma sem_inv_new: "0 \<le> m \<Longrightarrow> sem_inv (new_Queries m)"
  by (simp add: sem_inv_def new_Queries_def)

lemma sem_inv_acquire: "sem_inv q \<Longrightarrow> sem_inv (snd (acquireSemaphore c q))"
  by (auto simp: sem_inv_def acquireSemaphore_def)

lemma sem_inv_release: "sem_inv q \<Longrightarrow> sem_inv (snd (releaseSemaphore q))"
  by (auto simp: sem_inv_def releaseSemaphore_def Let_def split: list.splits)

lemma sem_inv_step: "sem_inv (sem g) \<Longrightarrow> sem_inv (sem (sem_step g c))"
  by (cases c)
     (auto simp: admit_def Let_def sem_inv_acquire sem_inv_release split: option.splits)

lemma sem_inv_run: "sem_inv (sem g) \<Longrightarrow> sem_inv (sem (run_calls g cs))"
  unfolding run_calls_def
  by (induction cs arbitrary: g) (simp_all add: sem_inv_step)

lemma maxConnections_acquire: "maxConnections (snd (acquireSemaphore c q)) = maxConnections q"
  by (simp add: acquireSemaphore_def)

lemma maxConnections_release: "maxConnections (snd (releaseSemaphore q)) = maxConnections q"
  by (simp add: releaseSemaphore_def Let_def split: list.splits)

lemma maxConnections_step: "maxConnections (sem (sem_step g c)) = maxConnections (sem g)"
  by (cases c)
     (auto simp: admit_def Let_def maxConnections_acquire maxConnections_release
           split: option.splits)

lemma maxConnections_run: "maxConnections (sem (run_calls g cs)) = maxConnections (sem g)"
  unfolding run_calls_def
  by (induction cs arbitrary: g) (simp_all add: maxConnections_step)

text \<open>
  Whatever calls are made, balanced or not, the field \<open>activeRequests\<close> stays at or below
  the capacity, a release admits the head of the queue, an acquire that has to wait goes to
  its back, and no acquire is admitted past a waiting caller.
\<close>

lemma activeRequests_bounded:
  assumes "0 \<le> m"
  shows "activeRequests (sem (run_calls (new_gatherer m) cs)) \<le> m"
proof -
  have "sem_inv (sem (new_gatherer m))"
    using assms by (simp add: new_gatherer_def sem_inv_new)
  then have "sem_inv (sem (run_calls (new_gatherer m) cs))"
    by (rule sem_inv_run)
  moreover have "maxConnections (sem (run_calls (new_gatherer m) cs)) = m"
    by (simp add: maxConnections_run new_gatherer_def new_Queries_def)
  ultimately show ?thesis
    by (simp add: sem_inv_def)
qed

lemma release_admits_longest_waiting:
  "requestQueue q = c # waiting \<Longrightarrow>
   fst (releaseSemaphore q) = Some c \<and> requestQueue (snd (releaseSemaphore q)) = waiting"
  by (simp add: releaseSemaphore_def Let_def)

lemma acquire_queues_last:
  "\<not> activeRequests q < maxConnections q \<Longrightarrow>
   fst (acquireSemaphore c q) = None \<and>
   requestQueue (snd (acquireSemaphore c q)) = requestQueue q @ [c]"
  by (simp add: acquireSemaphore_def)

lemma acquire_never_overtakes:
  "sem_inv q \<Longrightarrow> fst (acquireSemaphore c q) = Some c' \<Longrightarrow> requestQueue q = []"
  by (auto simp: sem_inv_def acquireSemaphore_def split: if_splits)

text \<open>
  Claim C1. The number of requests holding a slot should never exceed the capacity, under
  any interleaving of the callers, the attempts of \<open>queryRest\<close> included. It does: an
  attempt of \<open>queryRest\<close> that is answered 202 calls \<open>releaseSemaphore\<close> twice for its one
  \<open>acquireSemaphore\<close> (once before \<open>continue\<close>, once in the \<open>finally\<close> block). With the
  default capacity 10, after caller 0 has had one such attempt and has acquired again, ten
  more callers are all admitted at once: eleven callers hold a slot while the counter
  reads 10 and nobody waits.
\<close>

theorem queryRest_releases_twice_exceeds_capacity:
  "sem_calls 0 (trace (snd (queryRest ''repos/u/a/stats/contributors''
        \<lparr>gql_script = [],
         rest_script = [Response 202 NoRetryAfter None,
                        Response 200 NoRetryAfter (Some empty_payload)],
         trace = []\<rparr>))) = [Acq 0, Rel 0, Rel 0, Acq 0, Rel 0]
   \<and> (let g = run_calls (new_gatherer 10)
                ([Acq 0, Rel 0, Rel 0, Acq 0] @
                 [Acq 1, Acq 2, Acq 3, Acq 4, Acq 5, Acq 6, Acq 7, Acq 8, Acq 9, Acq 10])
      in holding g = [0, 1, 2, 3, 4, 5, 6, 7, 8, 9, 10] \<and>
         activeRequests (sem g) = 10 \<and> maxConnections (sem g) = 10 \<and>
         requestQueue (sem g) = [])"
  by (simp add: queryRest_def queryRest_loop.simps maxAttempts_def rest_attempt_def
      next_reply_def emit_def log_and_wait_def or_empty_def sem_calls_def retry_delay_def
      run_calls_def new_gatherer_def new_Queries_def acquireSemaphore_def
      releaseSemaphore_def admit_def Let_def)

section \<open>Properties of queryRest\<close>

text \<open>
  Claim C2. After a 202 response the slot should be released before the wait begins. In
  the trace of a call whose first attempt is answered 202 and whose second is answered 200,
  the wait of 2000 ms comes while the slot of the first attempt is still held: both
  releases of that attempt follow the \<open>Sleep\<close>.
\<close>

theorem queryRest_waits_before_release:
  "trace (snd (queryRest ''repos/u/a/stats/contributors''
        \<lparr>gql_script = [],
         rest_script = [Response 202 NoRetryAfter None,
                        Response 200 NoRetryAfter (Some empty_payload)],
         trace = []\<rparr>)) =
     [Acquire, Get ''repos/u/a/stats/contributors'', Log 1 (Num 2000), Sleep (Num 2000),
      Release, Release,
      Acquire, Get ''repos/u/a/stats/contributors'', Release]"
  by (simp add: queryRest_def queryRest_loop.simps maxAttempts_def rest_attempt_def
      next_reply_def emit_def log_and_wait_def or_empty_def retry_delay_def)

lemma still_computing_pair: "still_computing (h, d) = Response 202 h d"
  by (simp add: still_computing_def)

lemma rest_attempt_202:
  "rest_script w = Response 202 h d # rs \<Longrightarrow>
   rest_attempt path attempt w =
     (Continue, w\<lparr>rest_script := rs,
        trace := trace w @ [Acquire, Get path] @ log_and_wait h attempt @ [Release, Release]\<rparr>)"
  by (simp add: rest_attempt_def next_reply_def emit_def)

lemma rest_attempt_200:
  "rest_script w = Response 200 h d # rs \<Longrightarrow>
   rest_attempt path attempt w =
     (Return (or_empty d), w\<lparr>rest_script := rs,
        trace := trace w @ [Acquire, Get path, Release]\<rparr>)"
  by (simp add: rest_attempt_def next_reply_def emit_def)

lemma attempts_202 [simp]:
  "attempts (tr @ Acquire # Get path # log_and_wait h a @ [Release, Release]) = Suc (attempts tr)"
  by (simp add: attempts_def log_and_wait_def)

lemma requests_202 [simp]:
  "requests (tr @ Acquire # Get path # log_and_wait h a @ [Release, Release]) = Suc (requests tr)"
  by (simp add: requests_def log_and_wait_def is_request_def)

lemma loop_202s_then_200:
  "attempt + length hs < maxAttempts \<Longrightarrow>
   rest_script w = map still_computing hs @ Response 200 h d # rest \<Longrightarrow>
   fst (queryRest_loop path attempt w) = or_empty d \<and>
   rest_script (snd (queryRest_loop path attempt w)) = rest \<and>
   attempts (trace (snd (queryRest_loop path attempt w))) = attempts (trace w) + length hs + 1 \<and>
   requests (trace (snd (queryRest_loop path attempt w))) = requests (trace w) + length hs + 1"
proof (induction hs arbitrary: attempt w)
  case Nil
  then show ?case
    by (simp add: queryRest_loop.simps[of path attempt w] rest_attempt_200
        attempts_def requests_def is_request_def)
next
  case (Cons x hs)
  obtain h' d' where x: "x = (h', d')" by (cases x)
  let ?w = "w\<lparr>rest_script := map still_computing hs @ Response 200 h d # rest,
        trace := trace w @ [Acquire, Get path] @ log_and_wait h' attempt @ [Release, Release]\<rparr>"
  have step: "queryRest_loop path attempt w = queryRest_loop path (Suc attempt) ?w"
    using Cons.prems x
    by (simp add: queryRest_loop.simps[of path attempt w] rest_attempt_202 still_computing_pair)
  have "Suc attempt + length hs < maxAttempts" using Cons.prems by simp
  from Cons.IH[OF this, of ?w] show ?case
    unfolding step by simp
qed

lemma loop_all_202:
  "length hs = maxAttempts - attempt \<Longrightarrow> attempt \<le> maxAttempts \<Longrightarrow>
   rest_script w = map still_computing hs @ rest \<Longrightarrow>
   fst (queryRest_loop path attempt w) = empty_payload \<and>
   rest_script (snd (queryRest_loop path attempt w)) = rest \<and>
   last (trace (snd (queryRest_loop path attempt w))) = Warn path \<and>
   attempts (trace (snd (queryRest_loop path attempt w))) = attempts (trace w) + length hs \<and>
   requests (trace (snd (queryRest_loop path attempt w))) = requests (trace w) + length hs"
proof (induction hs arbitrary: attempt w)
  case Nil
  then have "\<not> attempt < maxAttempts" by simp
  then have "queryRest_loop path attempt w = (empty_payload, emit [Warn path] w)"
    by (subst queryRest_loop.simps) simp
  then show ?case using Nil
    by (simp add: emit_def attempts_def requests_def is_request_def)
next
  case (Cons x hs)
  obtain h' d' where x: "x = (h', d')" by (cases x)
  have lt: "attempt < maxAttempts" using Cons.prems by simp
  let ?w = "w\<lparr>rest_script := map still_computing hs @ rest,
        trace := trace w @ [Acquire, Get path] @ log_and_wait h' attempt @ [Release, Release]\<rparr>"
  have step: "queryRest_loop path attempt w = queryRest_loop path (Suc attempt) ?w"
    using Cons.prems x lt
    by (simp add: queryRest_loop.simps[of path attempt w] rest_attempt_202 still_computing_pair)
  have "length hs = maxAttempts - Suc attempt" "Suc attempt \<le> maxAttempts"
    using Cons.prems lt by simp_all
  from Cons.IH[OF this, of ?w] show ?case
    unfolding step by simp
qed

text \<open>
  Claim C4. For every K below 60: when the endpoint answers 202 to the first K attempts
  (whatever their headers and bodies) and 200 with a payload to the next, \<open>queryRest\<close>
  returns that payload, and it has made exactly K + 1 attempts and sent exactly K + 1
  requests.
\<close>

theorem queryRest_K_still_computing_then_ok:
  assumes "length hs < 60"
  shows "let r = queryRest path
                   \<lparr>gql_script = g,
                    rest_script = map still_computing hs @ Response 200 h (Some p) # rest,
                    trace = tr\<rparr>
         in fst r = p \<and>
            attempts (trace (snd r)) = attempts tr + (length hs + 1) \<and>
            requests (trace (snd r)) = requests tr + (length hs + 1) \<and>
            rest_script (snd r) = rest"
  using assms
    loop_202s_then_200[of 0 hs
      "\<lparr>gql_script = g,
        rest_script = map still_computing hs @ Response 200 h (Some p) # rest,
        trace = tr\<rparr>" h "Some p" rest path]
  by (simp add: queryRest_def maxAttempts_def or_empty_def Let_def)

theorem queryRest_K_still_computing_then_ok_witness:
  "length [(NoRetryAfter, None), (RetryAfter (Some 1), None)] < 60 \<and>
   (let r = queryRest ''repos/u/a/traffic/views''
              \<lparr>gql_script = [],
               rest_script = [Response 202 NoRetryAfter None,
                              Response 202 (RetryAfter (Some 1)) None,
                              Response 200 NoRetryAfter (Some (Many []))],
               trace = []\<rparr>
    in fst r = Many [] \<and> attempts (trace (snd r)) = 3 \<and> requests (trace (snd r)) = 3 \<and>
       rest_script (snd r) = [])"
  using queryRest_K_still_computing_then_ok
    [of "[(NoRetryAfter, None), (RetryAfter (Some 1), None)]" "''repos/u/a/traffic/views''"
        "[]" NoRetryAfter "Many []" "[]" "[]"]
  by (simp add: still_computing_def attempts_def requests_def Let_def numeral_3_eq_3)

text \<open>
  Claim C5. When the endpoint answers 202 to all 60 attempts, \<open>queryRest\<close> returns the
  empty payload after exactly 60 attempts, and the last thing it does is to log the
  warning. The model of \<open>queryRest\<close> has no way to raise, as the source has none: every
  rejection is caught.
\<close>

theorem queryRest_gives_up_after_60:
  assumes "length hs = 60"
  shows "let r = queryRest path
                   \<lparr>gql_script = g, rest_script = map still_computing hs @ rest, trace = tr\<rparr>
         in fst r = empty_payload \<and>
            last (trace (snd r)) = Warn path \<and>
            attempts (trace (snd r)) = attempts tr + 60 \<and>
            requests (trace (snd r)) = requests tr + 60 \<and>
            rest_script (snd r) = rest"
  using assms
    loop_all_202[of hs 0
      "\<lparr>gql_script = g, rest_script = map still_computing hs @ rest, trace = tr\<rparr>" rest path]
  by (simp add: queryRest_def maxAttempts_def Let_def)

theorem queryRest_gives_up_after_60_witness:
  "length (replicate 60 (NoRetryAfter, None :: payload option)) = 60 \<and>
   (let r = queryRest ''repos/u/empty/stats/contributors''
              \<lparr>gql_script = [],
               rest_script = replicate 60 (Response 202 NoRetryAfter None),
               trace = []\<rparr>
    in fst r = Single \<lparr>rest_author = None, rest_weeks = None, rest_views = None\<rparr> \<and>
       last (trace (snd r)) = Warn ''repos/u/empty/stats/contributors'' \<and>
       attempts (trace (snd r)) = 60 \<and> rest_script (snd r) = [])"
  using queryRest_gives_up_after_60
    [of "replicate 60 (NoRetryAfter, None)" "''repos/u/empty/stats/contributors''"
        "[]" "[]" "[]"]
  by (simp add: still_computing_def attempts_def empty_payload_def empty_RESTResponse_def Let_def)

section \<open>Properties of getStats\<close>

text \<open>The definitions to unfold when \<open>getStats\<close> is run on a given script.\<close>

lemmas getStats_eval = getStats_def getStats_loop.simps query_def next_gql_def emit_def
  reposOverview_def hasMorePages_def ownedRepos_def contribRepos_def page_hasNext_def
  page_endCursor_def page_nodes_def page_repos_def add_page_def add_repo_def add_language_def
  resolve_name_def or_else_def truthy_def or0_def langName_def langColor_def set_props_def
  langsTotal_def js_div_def js_times_def toLowerCase_def lower_char_def new_Stats_def Let_def

text \<open>
  Claim C3. Each source should be paginated with its own end cursor. \<open>getStats\<close> calls
  \<open>reposOverview(nextOwned, nextContrib)\<close>, but the parameters of \<open>reposOverview\<close> are
  \<open>(contribCursor, ownedCursor)\<close>: when the first page ends the owned source at cursor
  \<open>O1\<close> and the contributed-to source at cursor \<open>C1\<close>, the second query asks for the owned
  repositories after \<open>C1\<close> and for the contributed-to repositories after \<open>O1\<close>.
\<close>

theorem owned_cursor_paginates_contributed_source:
  "posted (trace (snd (getStats (new_Stats ''u'' None None False)
     \<lparr>gql_script =
        [GqlOk (Some (empty_Viewer\<lparr>
           repositories := Some \<lparr>pageInfo = Some \<lparr>hasNextPage = True, endCursor = Some ''O1''\<rparr>,
                                 nodes = Some []\<rparr>,
           repositoriesContributedTo :=
             Some \<lparr>pageInfo = Some \<lparr>hasNextPage = False, endCursor = Some ''C1''\<rparr>,
                   nodes = Some []\<rparr>\<rparr>)),
         GqlOk None],
      rest_script = [], trace = []\<rparr>))) =
   [Overview \<lparr>repositories_after = None, repositoriesContributedTo_after = None\<rparr>,
    Overview \<lparr>repositories_after = Some ''C1'', repositoriesContributedTo_after = Some ''O1''\<rparr>]"
  by (simp add: getStats_eval posted_def empty_Viewer_def)

lemma add_repo_name [simp]: "t_name (add_repo ex e t r) = t_name t"
  by (simp add: add_repo_def split: option.splits)

lemma foldl_add_repo_name [simp]: "t_name (foldl (add_repo ex e) t rs) = t_name t"
  by (induction rs arbitrary: t) simp_all

lemma add_page_name [simp]: "t_name (add_page s e t raw) = Some (resolve_name raw)"
  by (simp add: add_page_def)




lemma langName_unnamed:
  assumes "edge_node lang = None \<or> (\<exists>n. edge_node lang = Some n \<and> \<not> truthy (node_name n))"
  shows "langName lang = ''Other''"
  using assms
proof
  assume "edge_node lang = None"
  then show ?thesis by (simp add: langName_def)
next
  assume "\<exists>n. edge_node lang = Some n \<and> \<not> truthy (node_name n)"
  then obtain n where n: "edge_node lang = Some n" "\<not> truthy (node_name n)" by blast
  show ?thesis
  proof (cases "node_name n")
    case None
    with n show ?thesis by (simp add: langName_def)
  next
    case (Some s)
    with n have "s = []" by (simp add: truthy_def)
    with n Some show ?thesis by (simp add: langName_def)
  qed
qed

lemma toLowerCase_Other: "toLowerCase ''Other'' = ''other''"
  by (simp add: toLowerCase_def lower_char_def)

text \<open>
  Claim C10. A language edge whose node is missing, or whose node has no name (or an empty
  one), is filed under the key \<open>Other\<close>: it is dropped when \<open>other\<close> is in the
  lower-cased exclusion set, otherwise it opens the entry \<open>Other\<close> with its size and one
  occurrence, or adds its size and one occurrence to the entry \<open>Other\<close> already there.
\<close>

theorem unnamed_language_is_Other:
  assumes "edge_node lang = None \<or> (\<exists>n. edge_node lang = Some n \<and> \<not> truthy (node_name n))"
  shows "langName lang = ''Other'' \<and>
         (''other'' \<in> ex \<longrightarrow> add_language ex langs lang = langs) \<and>
         (''other'' \<notin> ex \<longrightarrow> ''Other'' \<notin> fst ` set langs \<longrightarrow>
            add_language ex langs lang =
              langs @ [(''Other'', \<lparr>lang_size = or0 (edge_size lang), occurrences = 1,
                                    lang_color = langColor lang, lang_prop = None\<rparr>)]) \<and>
         (''other'' \<notin> ex \<longrightarrow> ''Other'' \<in> fst ` set langs \<longrightarrow>
            add_language ex langs lang =
              map (\<lambda>kv. if fst kv = ''Other''
                         then (fst kv, (snd kv)\<lparr>lang_size := lang_size (snd kv) + or0 (edge_size lang),
                                                 occurrences := occurrences (snd kv) + 1\<rparr>)
                         else kv) langs)"
proof -
  have name: "langName lang = ''Other''"
    using assms by (rule langName_unnamed)
  have low: "toLowerCase (langName lang) = ''other''"
    by (simp only: name toLowerCase_Other)
  have excluded: "''other'' \<in> ex \<Longrightarrow> add_language ex langs lang = langs"
    by (simp only: add_language_def low name toLowerCase_Other if_True)
  have fresh: "''other'' \<notin> ex \<Longrightarrow> ''Other'' \<notin> fst ` set langs \<Longrightarrow>
            add_language ex langs lang =
              langs @ [(''Other'', \<lparr>lang_size = or0 (edge_size lang), occurrences = 1,
                                    lang_color = langColor lang, lang_prop = None\<rparr>)]"
    by (simp only: add_language_def low name toLowerCase_Other if_False)
  have seen: "''other'' \<notin> ex \<Longrightarrow> ''Other'' \<in> fst ` set langs \<Longrightarrow>
            add_language ex langs lang =
              map (\<lambda>kv. if fst kv = ''Other''
                         then (fst kv, (snd kv)\<lparr>lang_size := lang_size (snd kv) + or0 (edge_size lang),
                                                 occurrences := occurrences (snd kv) + 1\<rparr>)
                         else kv) langs"
    by (simp only: add_language_def low name toLowerCase_Other if_False if_True)
  show ?thesis
  proof (intro conjI impI)
    show "langName lang = ''Other''" by (rule name)
  next
    assume "''other'' \<in> ex"
    then show "add_language ex langs lang = langs" by (rule excluded)
  next
    assume "''other'' \<notin> ex" "''Other'' \<notin> fst ` set langs"
    then show "add_language ex langs lang =
              langs @ [(''Other'', \<lparr>lang_size = or0 (edge_size lang), occurrences = 1,
                                    lang_color = langColor lang, lang_prop = None\<rparr>)]"
      by (rule fresh)
  next
    assume "''other'' \<notin> ex" "''Other'' \<in> fst ` set langs"
    then show "add_language ex langs lang =
              map (\<lambda>kv. if fst kv = ''Other''
                         then (fst kv, (snd kv)\<lparr>lang_size := lang_size (snd kv) + or0 (edge_size lang),
                                                 occurrences := occurrences (snd kv) + 1\<rparr>)
                         else kv) langs"
      by (rule seen)
  qed
qed

theorem unnamed_language_is_Other_witness:
  "(edge_node \<lparr>edge_size = Some 7, edge_node = None\<rparr> = None \<or>
     (\<exists>n. edge_node \<lparr>edge_size = Some 7, edge_node = None\<rparr> = Some n \<and> \<not> truthy (node_name n))) \<and>
   langName \<lparr>edge_size = Some 7, edge_node = None\<rparr> = ''Other'' \<and>
   add_language {} [] \<lparr>edge_size = Some 7, edge_node = None\<rparr> =
     [(''Other'', \<lparr>lang_size = 7, occurrences = 1, lang_color = None, lang_prop = None\<rparr>)] \<and>
   cached_languages (fst (getStats (new_Stats ''u'' None None False)
     \<lparr>gql_script =
        [GqlOk (Some (empty_Viewer\<lparr>
           repositories := Some \<lparr>pageInfo = None,
             nodes = Some [Some \<lparr>nameWithOwner = ''u/a'', repo_stargazers = Some 1,
                forkCount = None,
                repo_languages = Some [\<lparr>edge_size = Some 7, edge_node = None\<rparr>,
                   \<lparr>edge_size = Some 3,
                    edge_node = Some \<lparr>node_name = Some ''TS'', node_color = None\<rparr>\<rparr>]\<rparr>]\<rparr>\<rparr>))],
      rest_script = [], trace = []\<rparr>)) =
     Some [(''Other'', \<lparr>lang_size = 7, occurrences = 1, lang_color = None,
                        lang_prop = Some (Num 70)\<rparr>),
           (''TS'', \<lparr>lang_size = 3, occurrences = 1, lang_color = None,
                     lang_prop = Some (Num 30)\<rparr>)]"
  using unnamed_language_is_Other[of "\<lparr>edge_size = Some 7, edge_node = None\<rparr>" "{}" "[]"]
  by (simp add: getStats_eval empty_Viewer_def)








lemma counted_names:
  "distinct (map nameWithOwner (counted seen rs)) \<and>
   set (map nameWithOwner (counted seen rs)) = {nameWithOwner r |r. Some r \<in> set rs} - seen"
proof (induction seen rs rule: counted.induct)
  case (1 seen)
  show ?case by simp
next
  case (2 seen rs)
  then show ?case by simp
next
  case (3 seen r rs)
  show ?case
  proof (cases "nameWithOwner r \<in> seen")
    case True
    with 3 show ?thesis by auto
  next
    case False
    with 3 show ?thesis by auto
  qed
qed

lemma foldl_add_repo:
  "foldl (add_repo ex e) t rs =
     t\<lparr>t_repos := t_repos t @ map nameWithOwner (counted (ex \<union> set (t_repos t)) rs),
       t_stargazers := t_stargazers t +
          sum_list (map (\<lambda>r. or0 (repo_stargazers r)) (counted (ex \<union> set (t_repos t)) rs)),
       t_forks := t_forks t +
          sum_list (map (\<lambda>r. or0 (forkCount r)) (counted (ex \<union> set (t_repos t)) rs)),
       t_languages := foldl (add_language e) (t_languages t)
          (concat (map repo_edges (counted (ex \<union> set (t_repos t)) rs)))\<rparr>"
proof (induction rs arbitrary: t)
  case Nil
  show ?case by simp
next
  case (Cons x rs)
  show ?case
  proof (cases x)
    case None
    then show ?thesis using Cons[of t] by (simp add: add_repo_def)
  next
    case (Some r)
    show ?thesis
    proof (cases "nameWithOwner r \<in> ex \<union> set (t_repos t)")
      case True
      then have "add_repo ex e t x = t" using Some by (auto simp: add_repo_def)
      then show ?thesis using Cons[of t] True Some by simp
    next
      case False
      let ?t = "t\<lparr>t_repos := t_repos t @ [nameWithOwner r],
                t_stargazers := t_stargazers t + or0 (repo_stargazers r),
                t_forks := t_forks t + or0 (forkCount r),
                t_languages := foldl (add_language e) (t_languages t) (repo_edges r)\<rparr>"
      have step: "add_repo ex e t (Some r) = ?t"
        using False by (auto simp: add_repo_def repo_edges_def)
      have seen: "ex \<union> set (t_repos ?t) = insert (nameWithOwner r) (ex \<union> set (t_repos t))"
        by auto
      show ?thesis
        using False Cons[of ?t]
        by (simp add: Some step seen algebra_simps)
    qed
  qed
qed

lemma foldl_add_repo_set_name:
  "foldl (add_repo ex e) (t\<lparr>t_name := n\<rparr>) rs = (foldl (add_repo ex e) t rs)\<lparr>t_name := n\<rparr>"
  by (simp add: foldl_add_repo)

lemma add_page_eq:
  "add_page s e t raw =
     (foldl (add_repo (excludeRepos s) e) t (page_repos (ignoreForkedRepos s) raw))
       \<lparr>t_name := Some (resolve_name raw)\<rparr>"
  by (simp add: add_page_def foldl_add_repo_set_name)

lemma foldl_add_page:
  "foldl (add_page s e) t raws =
     (foldl (add_repo (excludeRepos s) e) t
        (concat (map (page_repos (ignoreForkedRepos s)) raws)))
       \<lparr>t_name := (if raws = [] then t_name t else Some (resolve_name (last raws)))\<rparr>"
proof (induction raws arbitrary: t)
  case Nil
  show ?case by simp
next
  case (Cons raw raws)
  show ?case
    by (simp only: foldl_Cons Cons) (simp add: add_page_eq foldl_add_repo_set_name)
qed

lemma query_ok:
  "gql_script w = GqlOk raw # rest \<Longrightarrow>
   query q w = (raw, w\<lparr>gql_script := rest, trace := trace w @ [Acquire, Post q, Release]\<rparr>)"
  by (simp add: query_def next_gql_def emit_def)

lemma loop_pages:
  "raws \<noteq> [] \<Longrightarrow> \<forall>raw \<in> set (butlast raws). hasMorePages raw \<Longrightarrow>
   \<not> hasMorePages (last raws) \<Longrightarrow> gql_script w = map GqlOk raws @ rest \<Longrightarrow>
   fst (getStats_loop s e t no nc w) = foldl (add_page s e) t raws"
proof (induction raws arbitrary: t no nc w)
  case Nil
  then show ?case by simp
next
  case (Cons raw raws)
  let ?q = "reposOverview no nc"
  let ?w = "w\<lparr>gql_script := map GqlOk raws @ rest, trace := trace w @ [Acquire, Post ?q, Release]\<rparr>"
  have q: "query ?q w = (raw, ?w)"
    using Cons.prems(4) by (simp add: query_ok)
  show ?case
  proof (cases "raws = []")
    case True
    with Cons.prems(3) have "\<not> hasMorePages raw" by simp
    then show ?thesis
      using True by (subst getStats_loop.simps) (simp add: q Let_def)
  next
    case False
    with Cons.prems(2) have more: "hasMorePages raw" by simp
    have "fst (getStats_loop s e (add_page s e t raw)
             (or_else (page_endCursor (ownedRepos raw)) no)
             (or_else (page_endCursor (contribRepos raw)) nc) ?w) =
          foldl (add_page s e) (add_page s e t raw) raws"
      using False Cons.prems by (intro Cons.IH) simp_all
    then show ?thesis
      using more by (subst getStats_loop.simps) (simp add: q Let_def)
  qed
qed

text \<open>
  Claim C6. Let \<open>getStats\<close> process the pages \<open>raws\<close> (every page but the last reports a
  next page). Then the repository set holds the names of the repositories that count, each
  once; these are exactly the names on the pages that are not excluded, so their number is
  the number of such names wherever the page boundaries fall; and the stargazer total, the
  fork total and the language aggregate are made of the repositories that count, each taken
  once.
\<close>

theorem each_repository_counts_once:
  assumes "raws \<noteq> []" and "\<forall>raw \<in> set (butlast raws). hasMorePages raw"
    and "\<not> hasMorePages (last raws)"
  shows "let s' = fst (getStats s \<lparr>gql_script = map GqlOk raws @ rest, rest_script = rs, trace = tr\<rparr>);
             repos = concat (map (page_repos (ignoreForkedRepos s)) raws);
             cs = counted (excludeRepos s) repos
         in cached_repos s' = Some (map nameWithOwner cs) \<and>
            distinct (map nameWithOwner cs) \<and>
            set (map nameWithOwner cs) = {nameWithOwner r |r. Some r \<in> set repos} - excludeRepos s \<and>
            length (map nameWithOwner cs) = card ({nameWithOwner r |r. Some r \<in> set repos} - excludeRepos s) \<and>
            cached_stargazers s' = Some (sum_list (map (\<lambda>r. or0 (repo_stargazers r)) cs)) \<and>
            cached_forks s' = Some (sum_list (map (\<lambda>r. or0 (forkCount r)) cs)) \<and>
            cached_languages s' =
              Some (set_props (foldl (add_language (toLowerCase ` excludeLangs s)) []
                                 (concat (map repo_edges cs))))"
proof -
  let ?w = "\<lparr>gql_script = map GqlOk raws @ rest, rest_script = rs, trace = tr\<rparr>"
  let ?e = "toLowerCase ` excludeLangs s"
  let ?t0 = "\<lparr>t_name = cached_name s, t_stargazers = 0, t_forks = 0,
                 t_languages = [], t_repos = []\<rparr>"
  let ?repos = "concat (map (page_repos (ignoreForkedRepos s)) raws)"
  let ?cs = "counted (excludeRepos s) ?repos"
  have loop: "fst (getStats_loop s ?e ?t0 None None ?w) = foldl (add_page s ?e) ?t0 raws"
    using assms by (intro loop_pages[where rest = rest]) simp_all
  have names: "distinct (map nameWithOwner ?cs)"
      "set (map nameWithOwner ?cs) = {nameWithOwner r |r. Some r \<in> set ?repos} - excludeRepos s"
    using counted_names[of "excludeRepos s" ?repos] by simp_all
  have len: "length (map nameWithOwner ?cs) =
             card ({nameWithOwner r |r. Some r \<in> set ?repos} - excludeRepos s)"
    using names distinct_card[of "map nameWithOwner ?cs"] by simp
  have "cached_repos (fst (getStats s ?w)) = Some (map nameWithOwner ?cs)"
       "cached_stargazers (fst (getStats s ?w)) = Some (sum_list (map (\<lambda>r. or0 (repo_stargazers r)) ?cs))"
       "cached_forks (fst (getStats s ?w)) = Some (sum_list (map (\<lambda>r. or0 (forkCount r)) ?cs))"
       "cached_languages (fst (getStats s ?w)) =
              Some (set_props (foldl (add_language ?e) [] (concat (map repo_edges ?cs))))"
    by (simp_all add: getStats_def Let_def loop foldl_add_page foldl_add_repo)
  with names len show ?thesis
    by (simp add: Let_def)
qed

theorem each_repository_counts_once_witness:
  "hasMorePages page_one \<and> \<not> hasMorePages page_two \<and>
   (let s' = fst (getStats (new_Stats ''u'' (Some {''u/x''}) None False)
                   \<lparr>gql_script = [GqlOk page_one, GqlOk page_two], rest_script = [], trace = []\<rparr>)
    in cached_repos s' = Some [''u/a'', ''u/b''] \<and>
       cached_stargazers s' = Some 8 \<and>
       cached_forks s' = Some 1 \<and>
       cached_languages s' =
         Some [(''TS'', \<lparr>lang_size = 150, occurrences = 2, lang_color = Some ''#3178c6'',
                         lang_prop = Some (Num 75)\<rparr>),
               (''JS'', \<lparr>lang_size = 50, occurrences = 1, lang_color = None,
                         lang_prop = Some (Num 25)\<rparr>)])"
proof -
  have h1: "[page_one, page_two] \<noteq> []" by simp
  have h2: "\<forall>raw \<in> set (butlast [page_one, page_two]). hasMorePages raw"
    by (simp add: page_one_def empty_Viewer_def hasMorePages_def ownedRepos_def page_hasNext_def)
  have h3: "\<not> hasMorePages (last [page_one, page_two])"
    by (simp add: page_two_def empty_Viewer_def hasMorePages_def ownedRepos_def contribRepos_def
        page_hasNext_def)
  have repos: "page_repos False page_one = [Some repo_a, Some repo_x]"
      "page_repos False page_two = [Some repo_b, None, Some repo_a, Some repo_x, Some repo_b]"
    by (simp_all add: page_one_def page_two_def empty_Viewer_def page_repos_def page_nodes_def
        ownedRepos_def contribRepos_def)
  have cs: "counted {''u/x''}
      [Some repo_a, Some repo_x, Some repo_b, None, Some repo_a, Some repo_x, Some repo_b] =
      [repo_a, repo_b]"
    by (simp add: repo_a_def repo_b_def repo_x_def)
  from each_repository_counts_once[OF h1 h2 h3,
      of "new_Stats ''u'' (Some {''u/x''}) None False" "[]" "[]" "[]"]
  have "let s' = fst (getStats (new_Stats ''u'' (Some {''u/x''}) None False)
                   \<lparr>gql_script = [GqlOk page_one, GqlOk page_two], rest_script = [], trace = []\<rparr>)
    in cached_repos s' = Some [''u/a'', ''u/b''] \<and>
       cached_stargazers s' = Some 8 \<and>
       cached_forks s' = Some 1 \<and>
       cached_languages s' =
         Some [(''TS'', \<lparr>lang_size = 150, occurrences = 2, lang_color = Some ''#3178c6'',
                         lang_prop = Some (Num 75)\<rparr>),
               (''JS'', \<lparr>lang_size = 50, occurrences = 1, lang_color = None,
                         lang_prop = Some (Num 25)\<rparr>)]"
    supply counted.simps [simp del]
    by (simp add: Let_def new_Stats_def repos cs)
       (simp add: repo_a_def repo_b_def repo_edges_def TS_edge_def JS_edge_def add_language_def
          langName_def langColor_def or_else_def truthy_def or0_def set_props_def langsTotal_def
          js_div_def js_times_def)
  with h2 h3 show ?thesis by simp
qed

section \<open>Properties of the accessors\<close>

lemma keeps_refl [simp]: "keeps x x"
  by (simp add: keeps_def)

lemma keeps_None [simp]: "keeps None y"
  by (simp add: keeps_def)



lemma kept_refl [simp]: "kept s s"
  by (simp add: kept_def)














lemma snd_returning [simp]: "snd (returning f x) = snd x"
  by (simp add: returning_def)

lemma fst_returning [simp]: "fst (returning f x) = map_sum id f (fst x)"
  by (simp add: returning_def)
















end
